theory Spec2Isabelle
  imports Main "HOL-Library.AList" "HOL-Library.Sublist"
begin

section \<open>JSON payloads as Python sees them\<close>

text \<open>
  Both servers (\<^verbatim>\<open>TurtleController.py\<close> and \<^verbatim>\<open>TurtleControllerWebSocket.py\<close>) work on
  the values that \<^verbatim>\<open>request.get_json()\<close> hands them: \<^verbatim>\<open>None\<close>, booleans, integers,
  strings, lists and dicts. A dict is kept as an association list in insertion order and is
  read with \<open>map_of\<close> (a parsed dict holds no key twice). Numbers with a fractional part
  are not part of the model, and a \<open>char\<close> stands for a code point below 256.
\<close>

datatype json =
    JNull
  | JBool bool
  | JInt int
  | JStr string
  | JList "json list"
  | JObj "(string \<times> json) list"

text \<open>Python's truth value of a payload, as used by \<^verbatim>\<open>if label:\<close> and \<^verbatim>\<open>if not data\<close>.\<close>

fun py_truthy :: "json \<Rightarrow> bool" where
  "py_truthy JNull = False"
| "py_truthy (JBool b) = b"
| "py_truthy (JInt i) = (i \<noteq> 0)"
| "py_truthy (JStr s) = (s \<noteq> [])"
| "py_truthy (JList xs) = (xs \<noteq> [])"
| "py_truthy (JObj kvs) = (kvs \<noteq> [])"

text \<open>
  Keys of the module-level dicts. Python hashes \<^verbatim>\<open>True\<close> and \<^verbatim>\<open>1\<close> (and \<^verbatim>\<open>False\<close> and
  \<^verbatim>\<open>0\<close>) to the same key; lists and dicts are unhashable and using one as a key raises
  \<^verbatim>\<open>TypeError\<close>.
\<close>

datatype pykey = KNone | KInt int | KStr string

fun py_hash :: "json \<Rightarrow> pykey option" where
  "py_hash JNull = Some KNone"
| "py_hash (JBool b) = Some (KInt (if b then 1 else 0))"
| "py_hash (JInt i) = Some (KInt i)"
| "py_hash (JStr s) = Some (KStr s)"
| "py_hash (JList xs) = None"
| "py_hash (JObj kvs) = None"

datatype py_exn = KeyError string | TypeError | AttributeError

text \<open>\<^verbatim>\<open>d.get(k)\<close> and \<^verbatim>\<open>d.get(k, default)\<close> on a dict.\<close>

definition dict_get :: "(string \<times> json) list \<Rightarrow> string \<Rightarrow> json \<Rightarrow> json" where
  "dict_get kvs k dflt = (case map_of kvs k of None \<Rightarrow> dflt | Some v \<Rightarrow> v)"

text \<open>\<^verbatim>\<open>v[k]\<close> with a string \<open>k\<close>: only a dict can be subscripted by a string.\<close>

definition subscript :: "json \<Rightarrow> string \<Rightarrow> py_exn + json" where
  "subscript v k =
     (case v of
        JObj kvs \<Rightarrow> (case map_of kvs k of None \<Rightarrow> Inl (KeyError k) | Some w \<Rightarrow> Inr w)
      | _ \<Rightarrow> Inl TypeError)"

text \<open>
  \<^verbatim>\<open>k in v\<close> with a string \<open>k\<close>: key membership for a dict, substring test for a string,
  element test for a list, \<^verbatim>\<open>TypeError\<close> for everything that is not iterable.
\<close>

definition py_in :: "string \<Rightarrow> json \<Rightarrow> py_exn + bool" where
  "py_in k v =
     (case v of
        JObj kvs \<Rightarrow> Inr (k \<in> fst ` set kvs)
      | JStr s \<Rightarrow> Inr (sublist k s)
      | JList xs \<Rightarrow> Inr (JStr k \<in> set xs)
      | _ \<Rightarrow> Inl TypeError)"

text \<open>
  What \<^verbatim>\<open>list.extend(v)\<close> appends: the elements of a list, the characters of a string,
  the keys of a dict; nothing else is iterable.
\<close>

definition py_iter :: "json \<Rightarrow> json list option" where
  "py_iter v =
     (case v of
        JList xs \<Rightarrow> Some xs
      | JStr s \<Rightarrow> Some (map (\<lambda>c. JStr [c]) s)
      | JObj kvs \<Rightarrow> Some (map (\<lambda>kv. JStr (fst kv)) kvs)
      | _ \<Rightarrow> None)"

section \<open>The server state\<close>

text \<open>
  The module-level globals. \<open>commands\<close> is a \<^verbatim>\<open>defaultdict(list)\<close>: a key is present once
  it has been subscripted. \<open>turtle_status\<close> and \<open>known_blocks\<close> are plain dicts whose
  values are listed in insertion order by \<^verbatim>\<open>/status/all\<close> and \<^verbatim>\<open>/report\<close>, so they are
  association lists. \<open>blocks_file\<close> is the content of \<^verbatim>\<open>blocks.json\<close>;
  \<open>connected_clients\<close> exists in the WebSocket server only. Console output and the
  socket.io notifications touch none of these and are left out.
\<close>

datatype disk = NoFile | Unparsable | Parsed json

record server =
  current_command :: json
  commands :: "pykey \<rightharpoonup> json list"
  turtle_status :: "(pykey \<times> json) list"
  known_blocks :: "(string \<times> json) list"
  blocks_file :: disk
  connected_clients :: "(string \<times> json) list"

definition initial :: "disk \<Rightarrow> server" where
  "initial d = \<lparr>current_command = JNull, commands = Map.empty, turtle_status = [],
                known_blocks = [], blocks_file = d, connected_clients = []\<rparr>"

text \<open>
  A handler answers with a status code and a JSON body, or it raises and Flask answers
  with an internal server error.
\<close>

datatype response = Response nat json | Unhandled py_exn

section \<open>Command queues\<close>

definition set_command :: "server \<Rightarrow> json \<Rightarrow> response \<times> server" where
  "set_command s data =
     (if \<not> py_truthy data
      then (Response 400 (JObj [(''status'', JStr ''error''),
                                (''message'', JStr ''Keine Daten erhalten'')]), s)
      else (Response 200 (JObj [(''status'', JStr ''ok''),
                                (''message'', JStr ''Befehl gespeichert'')]),
            s\<lparr>current_command := data\<rparr>))"

definition queue_commands :: "server \<Rightarrow> json \<Rightarrow> response \<times> server" where
  "queue_commands s data =
     (case data of
        JObj kvs \<Rightarrow>
          (let label = dict_get kvs ''label'' JNull;
               cmds = dict_get kvs ''commands'' (JList [])
           in if py_truthy label then
                (case py_hash label of
                   None \<Rightarrow> (Unhandled TypeError, s)
                 | Some k \<Rightarrow>
                     (let q = (case commands s k of None \<Rightarrow> [] | Some q \<Rightarrow> q)
                      in case py_iter cmds of
                           None \<Rightarrow> (Unhandled TypeError, s\<lparr>commands := (commands s)(k \<mapsto> q)\<rparr>)
                         | Some cs \<Rightarrow>
                             (Response 200 (JObj [(''status'', JStr ''ok''),
                                                  (''message'', JStr ''Kommandos gequeued'')]),
                              s\<lparr>commands := (commands s)(k \<mapsto> q @ cs)\<rparr>)))
              else (Response 400 (JObj [(''status'', JStr ''error''),
                                        (''message'', JStr ''Kein Label angegeben'')]), s))
      | _ \<Rightarrow> (Unhandled AttributeError, s))"

text \<open>
  The two polling routes read the label from the query string: it is a string or missing.
  Both test \<^verbatim>\<open>label in commands\<close> before they subscript.
\<close>

definition get_all_commands :: "server \<Rightarrow> string option \<Rightarrow> response \<times> server" where
  "get_all_commands s label =
     (case label of
        None \<Rightarrow> (Response 200 (JObj [(''commands'', JList [])]), s)
      | Some l \<Rightarrow>
          (if l \<noteq> [] then
             (case commands s (KStr l) of
                None \<Rightarrow> (Response 200 (JObj [(''commands'', JList [])]), s)
              | Some q \<Rightarrow> (Response 200 (JObj [(''commands'', JList q)]), s))
           else (Response 200 (JObj [(''commands'', JList [])]), s)))"

definition get_next_command :: "server \<Rightarrow> string option \<Rightarrow> response \<times> server" where
  "get_next_command s label =
     (case label of
        None \<Rightarrow> (Response 200 (JObj [(''command'', JNull)]), s)
      | Some l \<Rightarrow>
          (if l \<noteq> [] then
             (case commands s (KStr l) of
                None \<Rightarrow> (Response 200 (JObj [(''command'', JNull)]), s)
              | Some [] \<Rightarrow> (Response 200 (JObj [(''command'', JNull)]), s)
              | Some (next_cmd # rest) \<Rightarrow>
                  (Response 200 (JObj [(''command'', next_cmd)]),
                   s\<lparr>commands := (commands s)(KStr l \<mapsto> rest)\<rparr>))
           else (Response 200 (JObj [(''command'', JNull)]), s)))"

section \<open>Status cache\<close>

definition receive_status :: "server \<Rightarrow> json \<Rightarrow> response \<times> server" where
  "receive_status s data =
     (if \<not> py_truthy data
      then (Response 400 (JObj [(''status'', JStr ''error''),
                                (''message'', JStr ''Ungueltiger Status'')]), s)
      else
        (case py_in ''label'' data of
           Inl e \<Rightarrow> (Unhandled e, s)
         | Inr False \<Rightarrow>
             (Response 400 (JObj [(''status'', JStr ''error''),
                                  (''message'', JStr ''Ungueltiger Status'')]), s)
         | Inr True \<Rightarrow>
             (case subscript data ''label'' of
                Inl e \<Rightarrow> (Unhandled e, s)
              | Inr label \<Rightarrow>
                  (case py_hash label of
                     None \<Rightarrow> (Unhandled TypeError, s)
                   | Some k \<Rightarrow>
                       (Response 200 (JObj [(''status'', JStr ''ok'')]),
                        s\<lparr>turtle_status := AList.update k data (turtle_status s)\<rparr>)))))"

text \<open>The label of \<^verbatim>\<open>/status/<label>\<close> is a path segment: always a string.\<close>

definition get_status :: "server \<Rightarrow> string \<Rightarrow> response \<times> server" where
  "get_status s label =
     (case map_of (turtle_status s) (KStr label) of
        None \<Rightarrow> (Response 404 (JObj [(''status'', JStr ''error''),
                                      (''message'', JStr ''Nicht gefunden'')]), s)
      | Some status \<Rightarrow>
          (if py_truthy status then (Response 200 status, s)
           else (Response 404 (JObj [(''status'', JStr ''error''),
                                     (''message'', JStr ''Nicht gefunden'')]), s)))"

definition get_all_status :: "server \<Rightarrow> response \<times> server" where
  "get_all_status s = (Response 200 (JList (map snd (turtle_status s))), s)"

section \<open>Block knowledge base\<close>

subsection \<open>The coordinate key\<close>

text \<open>
  The key of a block is the f-string \<^verbatim>\<open>f"{block['x']},{block['y']},{block['z']}"\<close>.
  An f-string field formats its value with \<^verbatim>\<open>str\<close>: a string is taken as it is, an
  integer in decimal, and a list or dict by the \<^verbatim>\<open>repr\<close> of its elements.
\<close>

definition digit_char :: "nat \<Rightarrow> char" where
  "digit_char d = ''0123456789'' ! d"

function show_nat :: "nat \<Rightarrow> string" where
  "show_nat n =
     (if n < 10 then [digit_char n] else show_nat (n div 10) @ [digit_char (n mod 10)])"
  by pat_completeness auto
termination
  by (relation "measure id") auto

declare show_nat.simps [simp del]

definition show_int :: "int \<Rightarrow> string" where
  "show_int i = (if i < 0 then CHR ''-'' # show_nat (nat (- i)) else show_nat (nat i))"

definition hex_char :: "nat \<Rightarrow> char" where
  "hex_char d = ''0123456789abcdef'' ! d"

text \<open>
  \<^verbatim>\<open>repr\<close> of a string: single quotes unless the string holds a single and no double
  quote; the quote and the backslash are escaped with a backslash, tab, line feed and
  carriage return by their letter, other unprintable characters by two hexadecimal digits.
\<close>

definition repr_char :: "char \<Rightarrow> char \<Rightarrow> string" where
  "repr_char quote c =
     (let n = (of_char c :: nat) in
      if c = quote \<or> c = CHR 0x5C then [CHR 0x5C, c]
      else if n = 9 then [CHR 0x5C, CHR ''t'']
      else if n = 10 then [CHR 0x5C, CHR ''n'']
      else if n = 13 then [CHR 0x5C, CHR ''r'']
      else if n < 32 \<or> (127 \<le> n \<and> n \<le> 160) \<or> n = 173
        then [CHR 0x5C, CHR ''x'', hex_char (n div 16), hex_char (n mod 16)]
      else [c])"

definition repr_str :: "string \<Rightarrow> string" where
  "repr_str s =
     (let quote = (if CHR 0x27 \<in> set s \<and> CHR 0x22 \<notin> set s then CHR 0x22 else CHR 0x27)
      in [quote] @ concat (map (repr_char quote) s) @ [quote])"

fun join :: "string \<Rightarrow> string list \<Rightarrow> string" where
  "join sep [] = []"
| "join sep [x] = x"
| "join sep (x # y # ys) = x @ sep @ join sep (y # ys)"

fun py_repr :: "json \<Rightarrow> string" where
  "py_repr JNull = ''None''"
| "py_repr (JBool b) = (if b then ''True'' else ''False'')"
| "py_repr (JInt i) = show_int i"
| "py_repr (JStr s) = repr_str s"
| "py_repr (JList xs) = ''['' @ join '', '' (map py_repr xs) @ '']''"
| "py_repr (JObj kvs) =
     ''{'' @ join '', '' (map (\<lambda>kv. repr_str (fst kv) @ '': '' @ py_repr (snd kv)) kvs) @ ''}''"

definition py_str :: "json \<Rightarrow> string" where
  "py_str v = (case v of JStr s \<Rightarrow> s | _ \<Rightarrow> py_repr v)"

text \<open>
  The three subscripts are evaluated left to right; the first one that fails raises
  (\<^verbatim>\<open>KeyError\<close> for a dict without the field, \<^verbatim>\<open>TypeError\<close> for a record that is no
  dict).
\<close>

definition block_key :: "json \<Rightarrow> py_exn + string" where
  "block_key block =
     (case subscript block ''x'' of
        Inl e \<Rightarrow> Inl e
      | Inr x \<Rightarrow>
          (case subscript block ''y'' of
             Inl e \<Rightarrow> Inl e
           | Inr y \<Rightarrow>
               (case subscript block ''z'' of
                  Inl e \<Rightarrow> Inl e
                | Inr z \<Rightarrow> Inr (py_str x @ '','' @ py_str y @ '','' @ py_str z))))"

subsection \<open>Loading and saving\<close>

text \<open>
  The loop of \<^verbatim>\<open>load_blocks\<close> assigns unconditionally; it runs inside a \<^verbatim>\<open>try\<close> whose
  handler only prints, so a record that raises ends the loop and keeps what was loaded
  before it.
\<close>

fun load_loop :: "(string \<times> json) list \<Rightarrow> json list \<Rightarrow> (string \<times> json) list" where
  "load_loop kb [] = kb"
| "load_loop kb (block # rest) =
     (case block_key block of
        Inl e \<Rightarrow> kb
      | Inr key \<Rightarrow> load_loop (AList.update key block kb) rest)"

text \<open>
  A file that is missing or does not parse leaves the index as it is. So does parsed
  content that is not a list: a dict or string iterates over strings, whose subscript
  raises at the first one, and anything else is not iterable.
\<close>

definition load_blocks :: "server \<Rightarrow> server" where
  "load_blocks s =
     (case blocks_file s of
        NoFile \<Rightarrow> s
      | Unparsable \<Rightarrow> s
      | Parsed data \<Rightarrow>
          (case data of
             JList blocks \<Rightarrow> s\<lparr>known_blocks := load_loop (known_blocks s) blocks\<rparr>
           | _ \<Rightarrow> s))"

definition save_blocks :: "server \<Rightarrow> server" where
  "save_blocks s = s\<lparr>blocks_file := Parsed (JList (map snd (known_blocks s)))\<rparr>"

subsection \<open>Reporting blocks\<close>

text \<open>
  The loop of \<^verbatim>\<open>receive_scan\<close> over the index and the counter \<^verbatim>\<open>new_blocks\<close>. Nothing
  catches an exception here: the loop stops and the index keeps the insertions made so far.
\<close>

fun scan_loop ::
  "(string \<times> json) list \<Rightarrow> nat \<Rightarrow> json list \<Rightarrow> (string \<times> json) list \<times> (py_exn + nat)"
where
  "scan_loop kb new_blocks [] = (kb, Inr new_blocks)"
| "scan_loop kb new_blocks (block # rest) =
     (case block_key block of
        Inl e \<Rightarrow> (kb, Inl e)
      | Inr key \<Rightarrow>
          (if key \<notin> fst ` set kb
           then scan_loop (kb @ [(key, block)]) (new_blocks + 1) rest
           else scan_loop kb new_blocks rest))"

definition receive_scan :: "server \<Rightarrow> json \<Rightarrow> response \<times> server" where
  "receive_scan s data =
     (case data of
        JList blocks \<Rightarrow>
          (case scan_loop (known_blocks s) 0 blocks of
             (kb, Inl e) \<Rightarrow> (Unhandled e, s\<lparr>known_blocks := kb\<rparr>)
           | (kb, Inr new_blocks) \<Rightarrow>
               (Response 200 (JObj [(''status'', JStr ''ok''),
                                    (''new_blocks'', JInt (int new_blocks))]),
                if new_blocks > 0 then save_blocks (s\<lparr>known_blocks := kb\<rparr>)
                else s\<lparr>known_blocks := kb\<rparr>))
      | _ \<Rightarrow> (Response 400 (JObj [(''status'', JStr ''error''),
                                  (''message'', JStr ''Ungueltige Daten'')]), s))"

definition get_scan :: "server \<Rightarrow> response \<times> server" where
  "get_scan s = (Response 200 (JList (map snd (known_blocks s))), s)"

section \<open>The other routes and the socket.io events\<close>

definition index :: "server \<Rightarrow> response \<times> server" where
  "index s = (Response 200 (JStr ''Turtle Command Server laeuft!''), s)"

text \<open>
  An event handler returns a value (\<^verbatim>\<open>None\<close> when it falls off its end or returns early)
  or raises. The session id and the time stamp of a connection come from the transport and
  are parameters.
\<close>

definition handle_connect :: "server \<Rightarrow> string \<Rightarrow> string \<Rightarrow> (py_exn + json) \<times> server" where
  "handle_connect s sid now =
     (Inr JNull,
      s\<lparr>connected_clients :=
          AList.update sid (JObj [(''connected_at'', JStr now), (''type'', JStr ''unknown'')])
            (connected_clients s)\<rparr>)"

definition handle_disconnect :: "server \<Rightarrow> string \<Rightarrow> (py_exn + json) \<times> server" where
  "handle_disconnect s sid =
     (if sid \<in> fst ` set (connected_clients s)
      then (Inr JNull, s\<lparr>connected_clients := AList.delete sid (connected_clients s)\<rparr>)
      else (Inr JNull, s))"

definition handle_register ::
  "server \<Rightarrow> string \<Rightarrow> string \<Rightarrow> json \<Rightarrow> (py_exn + json) \<times> server"
where
  "handle_register s sid now data =
     (case data of
        JObj kvs \<Rightarrow>
          (let client_type = dict_get kvs ''type'' (JStr ''unknown'');
               client_id = dict_get kvs ''id'' (JStr ''unknown'')
           in (Inr JNull,
               s\<lparr>connected_clients :=
                   AList.update sid
                     (JObj [(''type'', client_type), (''id'', client_id),
                            (''connected_at'', JStr now)])
                     (connected_clients s)\<rparr>))
      | _ \<Rightarrow> (Inl AttributeError, s))"

definition handle_turtle_status :: "server \<Rightarrow> json \<Rightarrow> (py_exn + json) \<times> server" where
  "handle_turtle_status s data =
     (if \<not> py_truthy data then (Inr JNull, s)
      else
        (case py_in ''label'' data of
           Inl e \<Rightarrow> (Inl e, s)
         | Inr False \<Rightarrow> (Inr JNull, s)
         | Inr True \<Rightarrow>
             (case subscript data ''label'' of
                Inl e \<Rightarrow> (Inl e, s)
              | Inr label \<Rightarrow>
                  (case py_hash label of
                     None \<Rightarrow> (Inl TypeError, s)
                   | Some k \<Rightarrow>
                       (Inr JNull,
                        s\<lparr>turtle_status := AList.update k data (turtle_status s)\<rparr>)))))"

definition handle_command :: "server \<Rightarrow> json \<Rightarrow> (py_exn + json) \<times> server" where
  "handle_command s data =
     (case data of
        JObj kvs \<Rightarrow>
          (let label = dict_get kvs ''label'' JNull;
               command = dict_get kvs ''command'' JNull
           in if py_truthy label \<and> py_truthy command then
                (case py_hash label of
                   None \<Rightarrow> (Inl TypeError, s)
                 | Some k \<Rightarrow>
                     (let q = (case commands s k of None \<Rightarrow> [] | Some q \<Rightarrow> q)
                      in (Inr (JObj [(''status'', JStr ''ok'')]),
                          s\<lparr>commands := (commands s)(k \<mapsto> q @ [command])\<rparr>)))
              else (Inr (JObj [(''status'', JStr ''error''),
                               (''message'', JStr ''Label oder Command fehlt'')]), s))
      | _ \<Rightarrow> (Inl AttributeError, s))"

definition get_connected_clients :: "server \<Rightarrow> response \<times> server" where
  "get_connected_clients s = (Response 200 (JObj (connected_clients s)), s)"

section \<open>Runs of the server\<close>

text \<open>
  Every route and event of the two servers, and the state each leaves behind.
  \<^verbatim>\<open>load_blocks\<close> is no request: it runs once, before the first one.
\<close>

datatype request =
    Index
  | SetCommand json
  | QueueCommands json
  | GetAllCommands "string option"
  | GetNextCommand "string option"
  | ReceiveStatus json
  | GetStatus string
  | GetAllStatus
  | ReceiveScan json
  | GetScan
  | GetConnectedClients
  | Connect string string
  | Disconnect string
  | Register string string json
  | TurtleStatus json
  | Command json

fun step :: "server \<Rightarrow> request \<Rightarrow> server" where
  "step s Index = snd (index s)"
| "step s (SetCommand data) = snd (set_command s data)"
| "step s (QueueCommands data) = snd (queue_commands s data)"
| "step s (GetAllCommands label) = snd (get_all_commands s label)"
| "step s (GetNextCommand label) = snd (get_next_command s label)"
| "step s (ReceiveStatus data) = snd (receive_status s data)"
| "step s (GetStatus label) = snd (get_status s label)"
| "step s GetAllStatus = snd (get_all_status s)"
| "step s (ReceiveScan data) = snd (receive_scan s data)"
| "step s GetScan = snd (get_scan s)"
| "step s GetConnectedClients = snd (get_connected_clients s)"
| "step s (Connect sid now) = snd (handle_connect s sid now)"
| "step s (Disconnect sid) = snd (handle_disconnect s sid)"
| "step s (Register sid now data) = snd (handle_register s sid now data)"
| "step s (TurtleStatus data) = snd (handle_turtle_status s data)"
| "step s (Command data) = snd (handle_command s data)"

fun run :: "server \<Rightarrow> request list \<Rightarrow> server" where
  "run s [] = s"
| "run s (r # rs) = run (step s r) rs"

definition startup :: "disk \<Rightarrow> server" where
  "startup d = load_blocks (initial d)"

section \<open>Notions used in the statements about blocks\<close>

text \<open>
  A well-formed block record is a dict with the fields \<^verbatim>\<open>x\<close>, \<^verbatim>\<open>y\<close> and \<^verbatim>\<open>z\<close>, as in
  the body \<^verbatim>\<open>[{x,y,z,...}, ...]\<close> of \<^verbatim>\<open>POST /report\<close>; the values of the fields are not
  restricted.
\<close>

definition well_formed :: "json \<Rightarrow> bool" where
  "well_formed block =
     (case block of
        JObj kvs \<Rightarrow> ''x'' \<in> fst ` set kvs \<and> ''y'' \<in> fst ` set kvs \<and> ''z'' \<in> fst ` set kvs
      | _ \<Rightarrow> False)"

text \<open>The coordinate keys of a batch, in the order of its records.\<close>

fun batch_keys :: "json list \<Rightarrow> string list" where
  "batch_keys [] = []"
| "batch_keys (block # rest) =
     (case block_key block of Inl e \<Rightarrow> batch_keys rest | Inr key \<Rightarrow> key # batch_keys rest)"

text \<open>The distinct coordinate keys of a batch that the index does not hold.\<close>

definition new_keys :: "(string \<times> json) list \<Rightarrow> json list \<Rightarrow> string list" where
  "new_keys kb batch = remdups (filter (\<lambda>key. key \<notin> fst ` set kb) (batch_keys batch))"

text \<open>A record of a batch whose coordinate key the index does not hold.\<close>

definition absent_before :: "(string \<times> json) list \<Rightarrow> json \<Rightarrow> bool" where
  "absent_before kb block =
     (case block_key block of Inl e \<Rightarrow> False | Inr key \<Rightarrow> key \<notin> fst ` set kb)"

text \<open>
  At most one entry per coordinate key, and every block is stored under its own
  coordinate key.
\<close>

definition entries_ok :: "(string \<times> json) list \<Rightarrow> bool" where
  "entries_ok kb \<longleftrightarrow>
     distinct (map fst kb) \<and> list_all (\<lambda>entry. block_key (snd entry) = Inr (fst entry)) kb"

definition block_index_ok :: "server \<Rightarrow> bool" where
  "block_index_ok s \<longleftrightarrow> entries_ok (known_blocks s)"

text \<open>
  Reading a decimal numeral back; the inverse of \<open>show_nat\<close>, used to show that two
  different integers are never written the same way.
\<close>

definition digit_val :: "char \<Rightarrow> nat" where
  "digit_val c = of_char c - 48"

definition nat_of_digits :: "string \<Rightarrow> nat" where
  "nat_of_digits cs = foldl (\<lambda>acc c. 10 * acc + digit_val c) 0 cs"

section \<open>Command queues: ordering, acknowledgement, polling\<close>

text \<open>
  What \<^verbatim>\<open>POST /commands\<close> does for a label that is a non-empty string and a list of
  commands: the list goes to the end of the label's queue, a missing queue counts as empty.
\<close>

lemma queue_commands_string_label:
  assumes "l \<noteq> []"
  shows "queue_commands s (JObj [(''label'', JStr l), (''commands'', JList cs)])
       = (Response 200 (JObj [(''status'', JStr ''ok''),
                              (''message'', JStr ''Kommandos gequeued'')]),
          s\<lparr>commands :=
              (commands s)(KStr l \<mapsto> (case commands s (KStr l) of None \<Rightarrow> [] | Some q \<Rightarrow> q) @ cs)\<rparr>)"
  using assms by (simp add: queue_commands_def dict_get_def py_iter_def)

lemma queue_commands_empty_label:
  "queue_commands s (JObj [(''label'', JStr []), (''commands'', cmds)])
     = (Response 400 (JObj [(''status'', JStr ''error''),
                            (''message'', JStr ''Kein Label angegeben'')]), s)"
  by (simp add: queue_commands_def dict_get_def)

text \<open>
  C1, as stated, at the empty label: the request is refused and the poll that follows
  finds no command.
\<close>

theorem fifo_empty_label_counterexample:
  "fst (queue_commands (initial NoFile)
          (JObj [(''label'', JStr []), (''commands'', JList [JStr ''forward'', JStr ''dig''])]))
     = Response 400 (JObj [(''status'', JStr ''error''),
                           (''message'', JStr ''Kein Label angegeben'')])
   \<and> fst (get_next_command
            (snd (queue_commands (initial NoFile)
                    (JObj [(''label'', JStr []),
                           (''commands'', JList [JStr ''forward'', JStr ''dig''])])))
            (Some []))
     = Response 200 (JObj [(''command'', JNull)])
   \<and> Response 200 (JObj [(''command'', JNull)])
     \<noteq> Response 200 (JObj [(''command'', JStr ''forward'')])"
  by (simp add: queue_commands_empty_label get_next_command_def)

text \<open>
  C1, amended: for every non-empty label \<open>A\<close> whose queue is empty or missing and all
  commands \<open>c1\<close>, \<open>c2\<close>: after queueing \<open>[c1, c2]\<close> for \<open>A\<close>, the first poll for \<open>A\<close>
  answers \<open>c1\<close>, the second \<open>c2\<close>, and the third finds the queue empty.
\<close>

theorem fifo_two_commands:
  assumes "A \<noteq> []"
    and "commands s (KStr A) = None \<or> commands s (KStr A) = Some []"
  shows "(let (r0, s1) = queue_commands s (JObj [(''label'', JStr A),
                                               (''commands'', JList [c1, c2])]);
              (r1, s2) = get_next_command s1 (Some A);
              (r2, s3) = get_next_command s2 (Some A);
              (r3, s4) = get_next_command s3 (Some A)
          in r0 = Response 200 (JObj [(''status'', JStr ''ok''),
                                      (''message'', JStr ''Kommandos gequeued'')])
           \<and> r1 = Response 200 (JObj [(''command'', c1)])
           \<and> r2 = Response 200 (JObj [(''command'', c2)])
           \<and> r3 = Response 200 (JObj [(''command'', JNull)]))"
  using assms
  by (auto simp: queue_commands_string_label get_next_command_def)

theorem fifo_two_commands_witness:
  "''t1'' \<noteq> [] \<and> commands (initial NoFile) (KStr ''t1'') = None
   \<and> (let (r0, s1) = queue_commands (initial NoFile)
                        (JObj [(''label'', JStr ''t1''),
                               (''commands'', JList [JStr ''forward'', JStr ''dig''])]);
           (r1, s2) = get_next_command s1 (Some ''t1'');
           (r2, s3) = get_next_command s2 (Some ''t1'');
           (r3, s4) = get_next_command s3 (Some ''t1'')
       in r0 = Response 200 (JObj [(''status'', JStr ''ok''),
                                   (''message'', JStr ''Kommandos gequeued'')])
        \<and> r1 = Response 200 (JObj [(''command'', JStr ''forward'')])
        \<and> r2 = Response 200 (JObj [(''command'', JStr ''dig'')])
        \<and> r3 = Response 200 (JObj [(''command'', JNull)]))"
proof -
  have h1: "''t1'' \<noteq> []" by simp
  have h2: "commands (initial NoFile) (KStr ''t1'') = None
              \<or> commands (initial NoFile) (KStr ''t1'') = Some []"
    by (simp add: initial_def)
  show ?thesis
    using fifo_two_commands [OF h1 h2, of "JStr ''forward''" "JStr ''dig''"]
    by (simp add: initial_def)
qed

text \<open>
  C4, as stated, at one and at two commands for the label \<open>t1\<close>: the answer is the same
  fixed acknowledgement both times, although one command is appended in the first case and
  two in the second. The number appended is printed, not returned.
\<close>

theorem enqueue_answer_counterexample:
  "fst (queue_commands (initial NoFile)
          (JObj [(''label'', JStr ''t1''), (''commands'', JList [JStr ''forward'', JStr ''dig''])]))
     = Response 200 (JObj [(''status'', JStr ''ok''), (''message'', JStr ''Kommandos gequeued'')])
   \<and> fst (queue_commands (initial NoFile)
          (JObj [(''label'', JStr ''t1''), (''commands'', JList [JStr ''forward''])]))
     = Response 200 (JObj [(''status'', JStr ''ok''), (''message'', JStr ''Kommandos gequeued'')])
   \<and> commands (snd (queue_commands (initial NoFile)
          (JObj [(''label'', JStr ''t1''), (''commands'', JList [JStr ''forward'', JStr ''dig''])])))
        (KStr ''t1'') = Some [JStr ''forward'', JStr ''dig'']
   \<and> commands (snd (queue_commands (initial NoFile)
          (JObj [(''label'', JStr ''t1''), (''commands'', JList [JStr ''forward''])])))
        (KStr ''t1'') = Some [JStr ''forward'']"
  by (simp add: queue_commands_string_label initial_def)

text \<open>
  C4, amended: for every non-empty label and every list of commands, \<^verbatim>\<open>POST /commands\<close>
  appends the list to the end of the label's queue, creating the queue when it is missing,
  changes nothing else, and answers with the fixed acknowledgement
  \<^verbatim>\<open>{status: ok, message: Kommandos gequeued}\<close>.
\<close>

theorem enqueue_appends_to_tail:
  assumes "l \<noteq> []"
  shows "queue_commands s (JObj [(''label'', JStr l), (''commands'', JList cs)])
       = (Response 200 (JObj [(''status'', JStr ''ok''),
                              (''message'', JStr ''Kommandos gequeued'')]),
          s\<lparr>commands :=
              (commands s)(KStr l \<mapsto> (case commands s (KStr l) of None \<Rightarrow> [] | Some q \<Rightarrow> q) @ cs)\<rparr>)
       \<and> commands (snd (queue_commands s (JObj [(''label'', JStr l), (''commands'', JList cs)])))
           (KStr l)
         = Some ((case commands s (KStr l) of None \<Rightarrow> [] | Some q \<Rightarrow> q) @ cs)"
  using assms by (simp add: queue_commands_string_label)

theorem enqueue_appends_to_tail_witness:
  "''t1'' \<noteq> []
   \<and> commands (snd (queue_commands ((initial NoFile)\<lparr>commands := [KStr ''t1'' \<mapsto> [JStr ''up'']]\<rparr>)
                      (JObj [(''label'', JStr ''t1''),
                             (''commands'', JList [JStr ''forward'', JStr ''dig''])])))
       (KStr ''t1'')
     = Some [JStr ''up'', JStr ''forward'', JStr ''dig'']
   \<and> commands (snd (queue_commands (initial NoFile)
                      (JObj [(''label'', JStr ''t1''),
                             (''commands'', JList [JStr ''forward'', JStr ''dig''])])))
       (KStr ''t1'')
     = Some [JStr ''forward'', JStr ''dig'']"
proof -
  have h: "''t1'' \<noteq> []" by simp
  show ?thesis
    using enqueue_appends_to_tail [OF h, of "(initial NoFile)\<lparr>commands := [KStr ''t1'' \<mapsto> [JStr ''up'']]\<rparr>"
            "[JStr ''forward'', JStr ''dig'']"]
          enqueue_appends_to_tail [OF h, of "initial NoFile" "[JStr ''forward'', JStr ''dig'']"]
    by (simp add: initial_def)
qed

text \<open>
  C5: for every label whose queue is empty or was never created (and for a request
  without a label), \<^verbatim>\<open>GET /command\<close> answers with the null command, raises nothing, and
  leaves the whole state, the queue map included, as it was.
\<close>

theorem dequeue_empty_or_unknown:
  assumes "commands s (KStr l) = None \<or> commands s (KStr l) = Some []"
  shows "get_next_command s (Some l) = (Response 200 (JObj [(''command'', JNull)]), s)
       \<and> get_next_command s None = (Response 200 (JObj [(''command'', JNull)]), s)"
  using assms by (auto simp: get_next_command_def)

theorem dequeue_empty_or_unknown_witness:
  "(commands ((initial NoFile)\<lparr>commands := [KStr ''t1'' \<mapsto> []]\<rparr>) (KStr ''t1'') = None
      \<or> commands ((initial NoFile)\<lparr>commands := [KStr ''t1'' \<mapsto> []]\<rparr>) (KStr ''t1'') = Some [])
   \<and> get_next_command ((initial NoFile)\<lparr>commands := [KStr ''t1'' \<mapsto> []]\<rparr>) (Some ''t1'')
     = (Response 200 (JObj [(''command'', JNull)]),
        (initial NoFile)\<lparr>commands := [KStr ''t1'' \<mapsto> []]\<rparr>)
   \<and> (commands (initial NoFile) (KStr ''t2'') = None
      \<or> commands (initial NoFile) (KStr ''t2'') = Some [])
   \<and> get_next_command (initial NoFile) (Some ''t2'')
     = (Response 200 (JObj [(''command'', JNull)]), initial NoFile)"
proof -
  have h1: "commands ((initial NoFile)\<lparr>commands := [KStr ''t1'' \<mapsto> []]\<rparr>) (KStr ''t1'') = None
      \<or> commands ((initial NoFile)\<lparr>commands := [KStr ''t1'' \<mapsto> []]\<rparr>) (KStr ''t1'') = Some []"
    by simp
  have h2: "commands (initial NoFile) (KStr ''t2'') = None
      \<or> commands (initial NoFile) (KStr ''t2'') = Some []"
    by (simp add: initial_def)
  show ?thesis
    using h1 h2 dequeue_empty_or_unknown [OF h1] dequeue_empty_or_unknown [OF h2]
    by simp
qed

text \<open>
  C9, as stated, at the empty label string: \<^verbatim>\<open>POST /commands\<close> refuses it with status 400
  and queues nothing; the socket.io \<^verbatim>\<open>command\<close> event refuses it as well.
\<close>

theorem empty_label_rejected_counterexample:
  "queue_commands (initial NoFile)
     (JObj [(''label'', JStr []), (''commands'', JList [JStr ''forward''])])
     = (Response 400 (JObj [(''status'', JStr ''error''),
                            (''message'', JStr ''Kein Label angegeben'')]),
        initial NoFile)
   \<and> handle_command (initial NoFile)
       (JObj [(''label'', JStr []), (''command'', JStr ''forward'')])
     = (Inr (JObj [(''status'', JStr ''error''),
                   (''message'', JStr ''Label oder Command fehlt'')]),
        initial NoFile)"
  by (simp add: queue_commands_empty_label handle_command_def dict_get_def)

text \<open>
  C9, amended: every non-empty label string is accepted on first use. When no queue exists
  for the label, \<^verbatim>\<open>POST /commands\<close> answers with status 200 and the label's queue is the
  list sent; the socket.io \<^verbatim>\<open>command\<close> event, given a command that is not empty,
  answers ok and the label's queue is that one command.
\<close>

theorem any_label_accepted_on_first_use:
  assumes "l \<noteq> []" and "commands s (KStr l) = None"
  shows "fst (queue_commands s (JObj [(''label'', JStr l), (''commands'', JList cs)]))
           = Response 200 (JObj [(''status'', JStr ''ok''),
                                 (''message'', JStr ''Kommandos gequeued'')])
       \<and> commands (snd (queue_commands s (JObj [(''label'', JStr l), (''commands'', JList cs)])))
           (KStr l) = Some cs
       \<and> (py_truthy c \<longrightarrow>
            handle_command s (JObj [(''label'', JStr l), (''command'', c)])
              = (Inr (JObj [(''status'', JStr ''ok'')]),
                 s\<lparr>commands := (commands s)(KStr l \<mapsto> [c])\<rparr>))"
  using assms
  by (simp add: queue_commands_string_label handle_command_def dict_get_def)

theorem any_label_accepted_on_first_use_witness:
  "''never-seen'' \<noteq> [] \<and> commands (initial NoFile) (KStr ''never-seen'') = None
   \<and> py_truthy (JStr ''dig'')
   \<and> commands (snd (queue_commands (initial NoFile)
                      (JObj [(''label'', JStr ''never-seen''),
                             (''commands'', JList [JStr ''forward''])])))
       (KStr ''never-seen'') = Some [JStr ''forward'']
   \<and> commands (snd (handle_command (initial NoFile)
                      (JObj [(''label'', JStr ''never-seen''), (''command'', JStr ''dig'')])))
       (KStr ''never-seen'') = Some [JStr ''dig'']"
proof -
  have h1: "''never-seen'' \<noteq> []" by simp
  have h2: "commands (initial NoFile) (KStr ''never-seen'') = None"
    by (simp add: initial_def)
  have h3: "py_truthy (JStr ''dig'')" by simp
  show ?thesis
    using h2 any_label_accepted_on_first_use [OF h1 h2, of "[JStr ''forward'']" "JStr ''dig''"]
    by simp
qed

text \<open>
  C10: for every label that is not a key of the queue map (and for a request without a
  label), \<^verbatim>\<open>GET /commands\<close> answers with the empty list and \<^verbatim>\<open>GET /command\<close> with the
  null command, and both leave the whole state unchanged: no queue is created for the label.
\<close>

theorem polling_creates_no_queue:
  assumes "label = None \<or> (\<exists>l. label = Some l \<and> KStr l \<notin> dom (commands s))"
  shows "get_all_commands s label = (Response 200 (JObj [(''commands'', JList [])]), s)
       \<and> get_next_command s label = (Response 200 (JObj [(''command'', JNull)]), s)
       \<and> commands (snd (get_all_commands s label)) = commands s
       \<and> commands (snd (get_next_command s label)) = commands s"
  using assms by (auto simp: get_all_commands_def get_next_command_def)

theorem polling_creates_no_queue_witness:
  "(Some ''ghost'' = None
      \<or> (\<exists>l. Some ''ghost'' = Some l \<and> KStr l \<notin> dom (commands (initial NoFile))))
   \<and> get_all_commands (initial NoFile) (Some ''ghost'')
     = (Response 200 (JObj [(''commands'', JList [])]), initial NoFile)
   \<and> get_next_command (initial NoFile) (Some ''ghost'')
     = (Response 200 (JObj [(''command'', JNull)]), initial NoFile)
   \<and> KStr ''ghost'' \<notin> dom (commands (snd (get_next_command (initial NoFile) (Some ''ghost''))))"
proof -
  have h: "Some ''ghost'' = None
      \<or> (\<exists>l. Some ''ghost'' = Some l \<and> KStr l \<notin> dom (commands (initial NoFile)))"
    by (simp add: initial_def)
  show ?thesis
    using h polling_creates_no_queue [OF h] by (simp add: initial_def)
qed

section \<open>Status cache: validation and last write wins\<close>

lemma value_has_key: "map_of kvs k = Some v \<Longrightarrow> k \<in> fst ` set kvs"
  by (auto dest: map_of_SomeD intro: rev_image_eqI)

lemma receive_status_stores:
  assumes "map_of kvs ''label'' = Some label" and "py_hash label = Some k"
  shows "receive_status s (JObj kvs)
       = (Response 200 (JObj [(''status'', JStr ''ok'')]),
          s\<lparr>turtle_status := AList.update k (JObj kvs) (turtle_status s)\<rparr>)"
proof -
  have "''label'' \<in> fst ` set kvs" using assms(1) by (rule value_has_key)
  moreover from this have "kvs \<noteq> []" by auto
  ultimately show ?thesis
    using assms by (simp add: receive_status_def py_in_def subscript_def)
qed

text \<open>A label that is a list or a dict cannot be a dict key: the assignment raises.\<close>

lemma receive_status_unhashable_label:
  assumes "map_of kvs ''label'' = Some label" and "py_hash label = None"
  shows "receive_status s (JObj kvs) = (Unhandled TypeError, s)"
proof -
  have "''label'' \<in> fst ` set kvs" using assms(1) by (rule value_has_key)
  moreover from this have "kvs \<noteq> []" by auto
  ultimately show ?thesis
    using assms by (simp add: receive_status_def py_in_def subscript_def)
qed

text \<open>The socket.io event applies the same test and the same assignment, and returns nothing.\<close>

lemma handle_turtle_status_cache:
  "(\<not> py_truthy data \<or> (\<exists>kvs. data = JObj kvs \<and> ''label'' \<notin> fst ` set kvs)
      \<longrightarrow> handle_turtle_status s data = (Inr JNull, s))
   \<and> (map_of kvs ''label'' = Some label \<and> py_hash label = Some k
      \<longrightarrow> handle_turtle_status s (JObj kvs)
            = (Inr JNull, s\<lparr>turtle_status := AList.update k (JObj kvs) (turtle_status s)\<rparr>))"
proof (intro conjI impI)
  assume "\<not> py_truthy data \<or> (\<exists>kvs. data = JObj kvs \<and> ''label'' \<notin> fst ` set kvs)"
  then show "handle_turtle_status s data = (Inr JNull, s)"
    by (auto simp: handle_turtle_status_def py_in_def)
next
  assume a: "map_of kvs ''label'' = Some label \<and> py_hash label = Some k"
  then have "''label'' \<in> fst ` set kvs" by (simp add: value_has_key)
  moreover from this have "kvs \<noteq> []" by auto
  ultimately show "handle_turtle_status s (JObj kvs)
            = (Inr JNull, s\<lparr>turtle_status := AList.update k (JObj kvs) (turtle_status s)\<rparr>)"
    using a by (simp add: handle_turtle_status_def py_in_def subscript_def)
qed

text \<open>
  C6: for every agent id \<open>l\<close> and every snapshot whose \<^verbatim>\<open>label\<close> field is \<open>l\<close>, whatever
  the cache held before: \<^verbatim>\<open>POST /status\<close> with the snapshot succeeds, and the
  \<^verbatim>\<open>GET /status/l\<close> that follows answers with exactly that snapshot and changes nothing.
\<close>

theorem upsert_then_get:
  assumes "map_of snapshot ''label'' = Some (JStr l)"
  shows "(let (r1, s1) = receive_status s (JObj snapshot)
          in r1 = Response 200 (JObj [(''status'', JStr ''ok'')])
           \<and> get_status s1 l = (Response 200 (JObj snapshot), s1))"
proof -
  have "snapshot \<noteq> []" using assms by auto
  then show ?thesis
    using assms
    by (simp add: receive_status_stores [where k = "KStr l"] get_status_def update_conv')
qed

theorem upsert_then_get_witness:
  "map_of [(''label'', JStr ''t1''), (''fuelLevel'', JInt 80), (''maxFuel'', JInt 100)] ''label''
     = Some (JStr ''t1'')
   \<and> (let old = (initial NoFile)\<lparr>turtle_status :=
                    [(KStr ''t1'', JObj [(''label'', JStr ''t1''), (''fuelLevel'', JInt 95)])]\<rparr>;
           (r1, s1) = receive_status old
                        (JObj [(''label'', JStr ''t1''), (''fuelLevel'', JInt 80),
                               (''maxFuel'', JInt 100)])
       in r1 = Response 200 (JObj [(''status'', JStr ''ok'')])
        \<and> fst (get_status s1 ''t1'')
          = Response 200 (JObj [(''label'', JStr ''t1''), (''fuelLevel'', JInt 80),
                                (''maxFuel'', JInt 100)]))"
proof -
  have h: "map_of [(''label'', JStr ''t1''), (''fuelLevel'', JInt 80), (''maxFuel'', JInt 100)]
             ''label'' = Some (JStr ''t1'')"
    by simp
  show ?thesis
    using h upsert_then_get [OF h, of "(initial NoFile)\<lparr>turtle_status :=
                    [(KStr ''t1'', JObj [(''label'', JStr ''t1''), (''fuelLevel'', JInt 95)])]\<rparr>"]
    by (simp add: Let_def split: prod.splits)
qed

text \<open>
  For every payload the two transports leave the same state behind, and only an accepted
  snapshot changes it.
\<close>

lemma status_transports_same_state:
  "snd (handle_turtle_status s payload) = snd (receive_status s payload)"
  by (simp add: handle_turtle_status_def receive_status_def
           split: sum.splits bool.splits option.splits)

lemma receive_status_no_label:
  assumes "\<not> py_truthy data \<or> py_in ''label'' data = Inr False"
  shows "receive_status s data
           = (Response 400 (JObj [(''status'', JStr ''error''),
                                  (''message'', JStr ''Ungueltiger Status'')]), s)
       \<and> handle_turtle_status s data = (Inr JNull, s)"
  using assms by (auto simp: receive_status_def handle_turtle_status_def)

lemma receive_status_failure_keeps_state:
  assumes "fst (receive_status s payload) \<noteq> Response 200 (JObj [(''status'', JStr ''ok'')])"
  shows "snd (receive_status s payload) = s"
  using assms
  by (auto simp: receive_status_def split: sum.splits bool.splits option.splits if_splits)

lemma receive_status_success_needs_label:
  assumes "fst (receive_status s payload) = Response 200 (JObj [(''status'', JStr ''ok'')])"
  shows "\<exists>kvs label k. payload = JObj kvs \<and> map_of kvs ''label'' = Some label
           \<and> py_hash label = Some k"
proof (cases payload)
  case (JObj kvs)
  with assms show ?thesis
    by (auto simp: receive_status_def py_in_def subscript_def
             split: sum.splits bool.splits option.splits if_splits)
qed (use assms in \<open>auto simp: receive_status_def py_in_def subscript_def
                     split: sum.splits bool.splits option.splits if_splits\<close>)

text \<open>
  C7, as stated, at three payloads on the empty cache. The socket.io event answers a
  snapshot without a label exactly as it answers a valid one: it returns nothing, so no
  validation error reaches the sender. And \<^verbatim>\<open>POST /status\<close> with a snapshot whose label
  field holds a list neither succeeds nor answers with the validation error: the
  assignment raises.
\<close>

theorem upsert_counterexample:
  "handle_turtle_status (initial NoFile) (JObj [(''fuelLevel'', JInt 80)])
     = (Inr JNull, initial NoFile)
   \<and> fst (handle_turtle_status (initial NoFile)
            (JObj [(''label'', JStr ''t1''), (''fuelLevel'', JInt 80)]))
     = Inr JNull
   \<and> receive_status (initial NoFile)
       (JObj [(''label'', JList [JStr ''t1'']), (''fuelLevel'', JInt 80)])
     = (Unhandled TypeError, initial NoFile)"
  by (simp add: handle_turtle_status_def receive_status_def py_in_def subscript_def)

text \<open>
  C7, amended. A payload that is empty, or that is a snapshot, string or list holding no
  \<^verbatim>\<open>label\<close>, is refused: \<^verbatim>\<open>POST /status\<close> answers with the validation error (status
  400), the socket.io event returns without an answer, and the state is unchanged on both
  transports. A snapshot whose \<^verbatim>\<open>label\<close> field holds a string (or any other value that
  can be a dict key) is accepted on both transports, and the only change is that the cache
  now maps the identifier to this snapshot, replacing what it held for it. For every
  payload whatsoever the two transports leave the same state behind, a call that does not
  answer ok leaves the state unchanged, and only a snapshot with such a label is
  answered ok.
\<close>

theorem upsert_on_both_transports:
  "(\<not> py_truthy data
      \<or> (\<exists>kvs. data = JObj kvs \<and> ''label'' \<notin> fst ` set kvs)
      \<or> (\<exists>str. data = JStr str \<and> \<not> sublist ''label'' str)
      \<or> (\<exists>xs. data = JList xs \<and> JStr ''label'' \<notin> set xs)
      \<longrightarrow> receive_status s data
            = (Response 400 (JObj [(''status'', JStr ''error''),
                                   (''message'', JStr ''Ungueltiger Status'')]), s)
        \<and> handle_turtle_status s data = (Inr JNull, s))
   \<and> (map_of snapshot ''label'' = Some label \<and> py_hash label = Some k
      \<longrightarrow> receive_status s (JObj snapshot)
            = (Response 200 (JObj [(''status'', JStr ''ok'')]),
               s\<lparr>turtle_status := AList.update k (JObj snapshot) (turtle_status s)\<rparr>)
        \<and> handle_turtle_status s (JObj snapshot)
            = (Inr JNull,
               s\<lparr>turtle_status := AList.update k (JObj snapshot) (turtle_status s)\<rparr>)
        \<and> map_of (AList.update k (JObj snapshot) (turtle_status s))
            = (map_of (turtle_status s))(k \<mapsto> JObj snapshot))
   \<and> snd (handle_turtle_status s payload) = snd (receive_status s payload)
   \<and> (fst (receive_status s payload) \<noteq> Response 200 (JObj [(''status'', JStr ''ok'')])
      \<longrightarrow> snd (receive_status s payload) = s)
   \<and> (fst (receive_status s payload) = Response 200 (JObj [(''status'', JStr ''ok'')])
      \<longrightarrow> (\<exists>kvs l j. payload = JObj kvs \<and> map_of kvs ''label'' = Some l
                    \<and> py_hash l = Some j))"
proof (intro conjI impI)
  assume "\<not> py_truthy data
      \<or> (\<exists>kvs. data = JObj kvs \<and> ''label'' \<notin> fst ` set kvs)
      \<or> (\<exists>str. data = JStr str \<and> \<not> sublist ''label'' str)
      \<or> (\<exists>xs. data = JList xs \<and> JStr ''label'' \<notin> set xs)"
  then have no_label: "\<not> py_truthy data \<or> py_in ''label'' data = Inr False"
    by (auto simp: py_in_def)
  show "receive_status s data
          = (Response 400 (JObj [(''status'', JStr ''error''),
                                 (''message'', JStr ''Ungueltiger Status'')]), s)"
    using receive_status_no_label [OF no_label] by simp
  show "handle_turtle_status s data = (Inr JNull, s)"
    using receive_status_no_label [OF no_label] by simp
next
  assume a: "map_of snapshot ''label'' = Some label \<and> py_hash label = Some k"
  show "receive_status s (JObj snapshot)
          = (Response 200 (JObj [(''status'', JStr ''ok'')]),
             s\<lparr>turtle_status := AList.update k (JObj snapshot) (turtle_status s)\<rparr>)"
    using a by (simp add: receive_status_stores)
  show "handle_turtle_status s (JObj snapshot)
          = (Inr JNull, s\<lparr>turtle_status := AList.update k (JObj snapshot) (turtle_status s)\<rparr>)"
    using a handle_turtle_status_cache [of _ s snapshot label k] by simp
  show "map_of (AList.update k (JObj snapshot) (turtle_status s))
          = (map_of (turtle_status s))(k \<mapsto> JObj snapshot)"
    by (rule update_conv')
next
  show "snd (handle_turtle_status s payload) = snd (receive_status s payload)"
    by (rule status_transports_same_state)
next
  assume "fst (receive_status s payload) \<noteq> Response 200 (JObj [(''status'', JStr ''ok'')])"
  then show "snd (receive_status s payload) = s"
    by (rule receive_status_failure_keeps_state)
next
  assume "fst (receive_status s payload) = Response 200 (JObj [(''status'', JStr ''ok'')])"
  then show "\<exists>kvs l j. payload = JObj kvs \<and> map_of kvs ''label'' = Some l \<and> py_hash l = Some j"
    by (rule receive_status_success_needs_label)
qed

theorem upsert_on_both_transports_witness:
  "\<not> py_truthy (JObj [])
   \<and> receive_status (initial NoFile) (JObj [])
     = (Response 400 (JObj [(''status'', JStr ''error''),
                            (''message'', JStr ''Ungueltiger Status'')]), initial NoFile)
   \<and> handle_turtle_status (initial NoFile) (JObj []) = (Inr JNull, initial NoFile)
   \<and> (\<exists>kvs. JObj [(''fuelLevel'', JInt 80)] = JObj kvs \<and> ''label'' \<notin> fst ` set kvs)
   \<and> receive_status (initial NoFile) (JObj [(''fuelLevel'', JInt 80)])
     = (Response 400 (JObj [(''status'', JStr ''error''),
                            (''message'', JStr ''Ungueltiger Status'')]), initial NoFile)
   \<and> handle_turtle_status (initial NoFile) (JObj [(''fuelLevel'', JInt 80)])
     = (Inr JNull, initial NoFile)
   \<and> map_of [(''label'', JStr ''t1''), (''fuelLevel'', JInt 80)] ''label'' = Some (JStr ''t1'')
   \<and> py_hash (JStr ''t1'') = Some (KStr ''t1'')
   \<and> receive_status
       ((initial NoFile)\<lparr>turtle_status :=
          [(KStr ''t1'', JObj [(''label'', JStr ''t1''), (''fuelLevel'', JInt 95)])]\<rparr>)
       (JObj [(''label'', JStr ''t1''), (''fuelLevel'', JInt 80)])
     = (Response 200 (JObj [(''status'', JStr ''ok'')]),
        (initial NoFile)\<lparr>turtle_status :=
           [(KStr ''t1'', JObj [(''label'', JStr ''t1''), (''fuelLevel'', JInt 80)])]\<rparr>)
   \<and> handle_turtle_status
       ((initial NoFile)\<lparr>turtle_status :=
          [(KStr ''t1'', JObj [(''label'', JStr ''t1''), (''fuelLevel'', JInt 95)])]\<rparr>)
       (JObj [(''label'', JStr ''t1''), (''fuelLevel'', JInt 80)])
     = (Inr JNull,
        (initial NoFile)\<lparr>turtle_status :=
           [(KStr ''t1'', JObj [(''label'', JStr ''t1''), (''fuelLevel'', JInt 80)])]\<rparr>)
   \<and> fst (receive_status (initial NoFile) (JObj [(''label'', JList [JStr ''t1''])]))
     \<noteq> Response 200 (JObj [(''status'', JStr ''ok'')])
   \<and> snd (receive_status (initial NoFile) (JObj [(''label'', JList [JStr ''t1''])]))
     = initial NoFile
   \<and> snd (handle_turtle_status (initial NoFile) (JObj [(''label'', JList [JStr ''t1''])]))
     = initial NoFile"
proof -
  let ?s0 = "initial NoFile"
  let ?old = "(initial NoFile)\<lparr>turtle_status :=
                [(KStr ''t1'', JObj [(''label'', JStr ''t1''), (''fuelLevel'', JInt 95)])]\<rparr>"
  let ?snap = "[(''label'', JStr ''t1''), (''fuelLevel'', JInt 80)]"
  let ?bad = "JObj [(''label'', JList [JStr ''t1''])]"
  have h1: "\<not> py_truthy (JObj [])" by simp
  have h2: "\<exists>kvs. JObj [(''fuelLevel'', JInt 80)] = JObj kvs \<and> ''label'' \<notin> fst ` set kvs"
    by simp
  have h3: "map_of ?snap ''label'' = Some (JStr ''t1'') \<and> py_hash (JStr ''t1'') = Some (KStr ''t1'')"
    by simp
  have h4: "fst (receive_status ?s0 ?bad) \<noteq> Response 200 (JObj [(''status'', JStr ''ok'')])"
    by (simp add: receive_status_unhashable_label)
  have empty: "receive_status ?s0 (JObj [])
                 = (Response 400 (JObj [(''status'', JStr ''error''),
                                        (''message'', JStr ''Ungueltiger Status'')]), ?s0)
               \<and> handle_turtle_status ?s0 (JObj []) = (Inr JNull, ?s0)"
    using h1 upsert_on_both_transports [of "JObj []" ?s0] by blast
  have unlabelled: "receive_status ?s0 (JObj [(''fuelLevel'', JInt 80)])
                 = (Response 400 (JObj [(''status'', JStr ''error''),
                                        (''message'', JStr ''Ungueltiger Status'')]), ?s0)
               \<and> handle_turtle_status ?s0 (JObj [(''fuelLevel'', JInt 80)]) = (Inr JNull, ?s0)"
    using h2 upsert_on_both_transports [of "JObj [(''fuelLevel'', JInt 80)]" ?s0] by blast
  have stored: "receive_status ?old (JObj ?snap)
                 = (Response 200 (JObj [(''status'', JStr ''ok'')]),
                    ?old\<lparr>turtle_status := AList.update (KStr ''t1'') (JObj ?snap) (turtle_status ?old)\<rparr>)
               \<and> handle_turtle_status ?old (JObj ?snap)
                 = (Inr JNull,
                    ?old\<lparr>turtle_status := AList.update (KStr ''t1'') (JObj ?snap) (turtle_status ?old)\<rparr>)"
    using h3 upsert_on_both_transports [of _ ?old ?snap "JStr ''t1''" "KStr ''t1''"] by blast
  have kept: "snd (receive_status ?s0 ?bad) = ?s0
              \<and> snd (handle_turtle_status ?s0 ?bad) = ?s0"
    using h4 upsert_on_both_transports [of _ ?s0 _ _ _ ?bad] by metis
  from stored have stored':
    "receive_status ?old (JObj ?snap)
       = (Response 200 (JObj [(''status'', JStr ''ok'')]),
          (initial NoFile)\<lparr>turtle_status := [(KStr ''t1'', JObj ?snap)]\<rparr>)
     \<and> handle_turtle_status ?old (JObj ?snap)
       = (Inr JNull, (initial NoFile)\<lparr>turtle_status := [(KStr ''t1'', JObj ?snap)]\<rparr>)"
    by (simp add: initial_def)
  show ?thesis
    using h1 h2 h3 h4 empty unlabelled stored' kept by blast
qed

section \<open>Block knowledge base: counting, validation, invariant\<close>

subsection \<open>The loop of the report route\<close>

lemma subscript_Inr_iff:
  "(\<exists>v. subscript block k = Inr v) \<longleftrightarrow> (\<exists>kvs. block = JObj kvs \<and> k \<in> fst ` set kvs)"
  by (cases block)
     (auto simp: subscript_def map_of_eq_None_iff split: option.splits
           dest: map_of_SomeD intro: rev_image_eqI)

lemma well_formed_subscripts:
  "well_formed block \<longleftrightarrow>
     (\<exists>x. subscript block ''x'' = Inr x) \<and> (\<exists>y. subscript block ''y'' = Inr y)
       \<and> (\<exists>z. subscript block ''z'' = Inr z)"
  unfolding subscript_Inr_iff by (cases block) (simp_all add: well_formed_def)

lemma well_formed_block_key: "well_formed block \<longleftrightarrow> (\<exists>key. block_key block = Inr key)"
  unfolding well_formed_subscripts
  by (auto simp: block_key_def split: sum.splits)

lemma batch_keys_length:
  "\<forall>b \<in> set blocks. well_formed b \<Longrightarrow> length (batch_keys blocks) = length blocks"
  by (induction blocks) (auto simp: well_formed_block_key)

lemma scan_loop_extends:
  "scan_loop kb n blocks = (kb', r) \<Longrightarrow> \<exists>ys. kb' = kb @ ys"
proof (induction blocks arbitrary: kb n)
  case Nil
  then show ?case by simp
next
  case (Cons block rest)
  show ?case
  proof (cases "block_key block")
    case (Inl e)
    with Cons.prems show ?thesis by simp
  next
    case (Inr key)
    show ?thesis
    proof (cases "key \<in> fst ` set kb")
      case True
      with Cons.prems Inr have "scan_loop kb n rest = (kb', r)" by simp
      then show ?thesis by (rule Cons.IH)
    next
      case False
      with Cons.prems Inr have "scan_loop (kb @ [(key, block)]) (n + 1) rest = (kb', r)" by simp
      then obtain ys where "kb' = (kb @ [(key, block)]) @ ys" using Cons.IH by blast
      then show ?thesis by simp
    qed
  qed
qed

lemma scan_loop_count:
  assumes "\<forall>b \<in> set blocks. well_formed b"
  shows "\<exists>kb'. scan_loop kb n blocks
                = (kb', Inr (n + card (set (batch_keys blocks) - fst ` set kb)))
             \<and> fst ` set kb' = fst ` set kb \<union> set (batch_keys blocks)"
  using assms
proof (induction blocks arbitrary: kb n)
  case Nil
  then show ?case by simp
next
  case (Cons block rest)
  then obtain key where key: "block_key block = Inr key"
    using well_formed_block_key by auto
  have wf: "\<forall>b \<in> set rest. well_formed b" using Cons.prems by simp
  have keys: "batch_keys (block # rest) = key # batch_keys rest" using key by simp
  show ?case
  proof (cases "key \<in> fst ` set kb")
    case True
    have step: "scan_loop kb n (block # rest) = scan_loop kb n rest"
      using key True by simp
    have "set (batch_keys (block # rest)) - fst ` set kb = set (batch_keys rest) - fst ` set kb"
      unfolding keys using True by auto
    moreover have "fst ` set kb \<union> set (batch_keys (block # rest))
                     = fst ` set kb \<union> set (batch_keys rest)"
      unfolding keys using True by auto
    ultimately show ?thesis
      unfolding step using Cons.IH [OF wf, of kb n] by simp
  next
    case False
    let ?kb = "kb @ [(key, block)]"
    have step: "scan_loop kb n (block # rest) = scan_loop ?kb (n + 1) rest"
      using key False by simp
    have eq: "set (batch_keys (block # rest)) - fst ` set kb
            = insert key (set (batch_keys rest) - fst ` set ?kb)"
      unfolding keys using False by auto
    have "key \<notin> set (batch_keys rest) - fst ` set ?kb" by simp
    then have card: "card (set (batch_keys (block # rest)) - fst ` set kb)
            = Suc (card (set (batch_keys rest) - fst ` set ?kb))"
      unfolding eq by (subst card_insert_disjoint) simp_all
    have dom: "fst ` set ?kb \<union> set (batch_keys rest)
                 = fst ` set kb \<union> set (batch_keys (block # rest))"
      unfolding keys by auto
    show ?thesis
      unfolding step card dom [symmetric] using Cons.IH [OF wf, of ?kb "n + 1"] by simp
  qed
qed

lemma scan_loop_all_known:
  assumes "\<forall>b \<in> set blocks. well_formed b"
    and "set (batch_keys blocks) \<subseteq> fst ` set kb"
  shows "scan_loop kb n blocks = (kb, Inr n)"
  using assms
proof (induction blocks)
  case Nil
  then show ?case by simp
next
  case (Cons block rest)
  then obtain key where key: "block_key block = Inr key"
    using well_formed_block_key by auto
  with Cons show ?case by simp
qed

lemma new_keys_card: "length (new_keys kb batch) = card (set (batch_keys batch) - fst ` set kb)"
proof -
  have "set (filter (\<lambda>key. key \<notin> fst ` set kb) (batch_keys batch))
          = set (batch_keys batch) - fst ` set kb"
    by auto
  then show ?thesis
    unfolding new_keys_def length_remdups_card_conv by simp
qed

lemma receive_scan_well_formed:
  assumes "\<forall>b \<in> set batch. well_formed b"
  shows "\<exists>kb'. fst ` set kb' = fst ` set (known_blocks s) \<union> set (batch_keys batch)
           \<and> fst (receive_scan s (JList batch))
               = Response 200 (JObj [(''status'', JStr ''ok''),
                    (''new_blocks'', JInt (int (length (new_keys (known_blocks s) batch))))])
           \<and> known_blocks (snd (receive_scan s (JList batch))) = kb'"
proof -
  obtain kb' where
    loop: "scan_loop (known_blocks s) 0 batch
             = (kb', Inr (0 + card (set (batch_keys batch) - fst ` set (known_blocks s))))"
    and dom: "fst ` set kb' = fst ` set (known_blocks s) \<union> set (batch_keys batch)"
    using scan_loop_count [OF assms, of "known_blocks s" 0] by blast
  show ?thesis
    using loop dom by (auto simp: receive_scan_def new_keys_card save_blocks_def)
qed

lemma receive_scan_all_known:
  assumes "\<forall>b \<in> set batch. well_formed b"
    and "set (batch_keys batch) \<subseteq> fst ` set (known_blocks s)"
  shows "receive_scan s (JList batch)
           = (Response 200 (JObj [(''status'', JStr ''ok''), (''new_blocks'', JInt 0)]), s)"
  using scan_loop_all_known [OF assms, of 0] by (simp add: receive_scan_def)

text \<open>Input that is no list is refused before anything is touched.\<close>

lemma receive_scan_not_a_list:
  assumes "\<And>blocks. data \<noteq> JList blocks"
  shows "receive_scan s data
           = (Response 400 (JObj [(''status'', JStr ''error''),
                                  (''message'', JStr ''Ungueltige Daten'')]), s)"
  using assms by (cases data) (auto simp: receive_scan_def)

lemma key_1_2_3:
  "block_key (JObj [(''x'', JInt 1), (''y'', JInt 2), (''z'', JInt 3), (''type'', t)]) = Inr ''1,2,3''"
  by (simp add: block_key_def subscript_def py_str_def show_int_def show_nat.simps digit_char_def)

lemma key_missing_y: "block_key (JObj [(''x'', JInt 1)]) = Inl (KeyError ''y'')"
  by (simp add: block_key_def subscript_def)

lemma key_1_2_4:
  "block_key (JObj [(''x'', JInt 1), (''y'', JInt 2), (''z'', JInt 4), (''type'', t)]) = Inr ''1,2,4''"
  by (simp add: block_key_def subscript_def py_str_def show_int_def show_nat.simps digit_char_def)

subsection \<open>Coordinate keys of integer coordinates\<close>

text \<open>
  Decimal numerals are read back uniquely and hold no comma, so the key determines the
  three coordinates when they are integers: blocks at different integer coordinates have
  different keys.
\<close>

lemma digit_cases: "d < 10 \<Longrightarrow> d \<in> {0, 1, 2, 3, 4, 5, 6, 7, 8, 9::nat}"
  by auto

lemma digit_val_digit_char: "d < 10 \<Longrightarrow> digit_val (digit_char d) = d"
  using digit_cases [of d] by (auto simp: digit_val_def digit_char_def)

lemma digit_char_in_digits: "d < 10 \<Longrightarrow> digit_char d \<in> set ''0123456789''"
  using digit_cases [of d] by (auto simp: digit_char_def)

lemma nat_of_digits_snoc: "nat_of_digits (cs @ [c]) = 10 * nat_of_digits cs + digit_val c"
  by (simp add: nat_of_digits_def)

lemma nat_of_digits_show_nat: "nat_of_digits (show_nat n) = n"
proof (induction n rule: show_nat.induct)
  case (1 n)
  show ?case
  proof (cases "n < 10")
    case True
    then show ?thesis
      by (subst show_nat.simps) (simp add: nat_of_digits_def digit_val_digit_char)
  next
    case False
    then have "nat_of_digits (show_nat (n div 10)) = n div 10" using 1 by simp
    with False show ?thesis
      by (subst show_nat.simps) (simp add: nat_of_digits_snoc digit_val_digit_char)
  qed
qed

lemma show_nat_inj: "show_nat m = show_nat n \<longleftrightarrow> m = n"
  by (metis nat_of_digits_show_nat)

lemma show_nat_digits: "set (show_nat n) \<subseteq> set ''0123456789''"
proof (induction n rule: show_nat.induct)
  case (1 n)
  show ?case
  proof (cases "n < 10")
    case True
    then show ?thesis
      using digit_char_in_digits [of n] by (subst show_nat.simps) simp
  next
    case False
    then have "set (show_nat (n div 10)) \<subseteq> set ''0123456789''" using 1 by simp
    moreover have "digit_char (n mod 10) \<in> set ''0123456789''"
      by (rule digit_char_in_digits) simp
    ultimately show ?thesis
      using False by (subst show_nat.simps) simp
  qed
qed

lemma show_nat_nonempty: "show_nat n \<noteq> []"
  by (subst show_nat.simps) simp

lemma show_nat_no_minus: "hd (show_nat n) \<noteq> CHR ''-''"
proof -
  have "hd (show_nat n) \<in> set (show_nat n)" using show_nat_nonempty by simp
  then have "hd (show_nat n) \<in> set ''0123456789''" using show_nat_digits by blast
  then show ?thesis by auto
qed

lemma show_int_inj:
  assumes eq: "show_int i = show_int j"
  shows "i = j"
proof -
  consider "i < 0" "j < 0" | "i < 0" "\<not> j < 0" | "\<not> i < 0" "j < 0" | "\<not> i < 0" "\<not> j < 0"
    by blast
  then show ?thesis
  proof cases
    case 1
    with eq have "nat (- i) = nat (- j)" by (simp add: show_int_def show_nat_inj)
    with 1 show ?thesis by simp
  next
    case 2
    with eq have "show_nat (nat j) = CHR ''-'' # show_nat (nat (- i))"
      by (simp add: show_int_def)
    then have "hd (show_nat (nat j)) = CHR ''-''" by simp
    then show ?thesis using show_nat_no_minus by blast
  next
    case 3
    with eq have "show_nat (nat i) = CHR ''-'' # show_nat (nat (- j))"
      by (simp add: show_int_def)
    then have "hd (show_nat (nat i)) = CHR ''-''" by simp
    then show ?thesis using show_nat_no_minus by blast
  next
    case 4
    with eq have "nat i = nat j" by (simp add: show_int_def show_nat_inj)
    with 4 show ?thesis by simp
  qed
qed

lemma show_int_no_comma: "CHR '','' \<notin> set (show_int i)"
proof -
  have "CHR '','' \<notin> set (show_nat n)" for n
    using show_nat_digits [of n] by auto
  then show ?thesis by (simp add: show_int_def)
qed

lemma split_at_comma:
  assumes "a @ CHR '','' # r = a' @ CHR '','' # r'"
    and "CHR '','' \<notin> set a" and "CHR '','' \<notin> set a'"
  shows "a = a' \<and> r = r'"
  using assms
proof (induction a arbitrary: a')
  case Nil
  then show ?case by (cases a') auto
next
  case (Cons h t)
  then show ?case by (cases a') auto
qed

lemma integer_key_inj:
  assumes "block_key (JObj kvs) = block_key (JObj kvs')"
    and "map_of kvs ''x'' = Some (JInt x)" "map_of kvs ''y'' = Some (JInt y)"
        "map_of kvs ''z'' = Some (JInt z)"
    and "map_of kvs' ''x'' = Some (JInt x')" "map_of kvs' ''y'' = Some (JInt y')"
        "map_of kvs' ''z'' = Some (JInt z')"
  shows "x = x' \<and> y = y' \<and> z = z'"
proof -
  have eq: "show_int x @ CHR '','' # show_int y @ CHR '','' # show_int z
          = show_int x' @ CHR '','' # show_int y' @ CHR '','' # show_int z'"
    using assms by (simp add: block_key_def subscript_def py_str_def)
  from split_at_comma [OF eq show_int_no_comma show_int_no_comma]
  have x: "show_int x = show_int x'"
    and rest: "show_int y @ CHR '','' # show_int z = show_int y' @ CHR '','' # show_int z'"
    by simp_all
  from split_at_comma [OF rest show_int_no_comma show_int_no_comma]
  have y: "show_int y = show_int y'" and z: "show_int z = show_int z'"
    by simp_all
  from x y z show ?thesis by (blast dest: show_int_inj)
qed

subsection \<open>What the report route answers\<close>

text \<open>
  C2, as stated, at a batch that holds the same unknown block twice: both records have a
  coordinate key that was absent before the call, but the second finds the key the first
  has just inserted, so the route answers 1 and not 2.
\<close>

theorem duplicate_in_batch_counterexample:
  "fst (receive_scan (initial NoFile)
         (JList [JObj [(''x'', JInt 1), (''y'', JInt 2), (''z'', JInt 3), (''type'', JStr ''stone'')],
                 JObj [(''x'', JInt 1), (''y'', JInt 2), (''z'', JInt 3), (''type'', JStr ''stone'')]]))
     = Response 200 (JObj [(''status'', JStr ''ok''), (''new_blocks'', JInt 1)])
   \<and> length (filter (absent_before (known_blocks (initial NoFile)))
         [JObj [(''x'', JInt 1), (''y'', JInt 2), (''z'', JInt 3), (''type'', JStr ''stone'')],
          JObj [(''x'', JInt 1), (''y'', JInt 2), (''z'', JInt 3), (''type'', JStr ''stone'')]])
     = 2"
  by (simp add: receive_scan_def key_1_2_3 absent_before_def initial_def save_blocks_def)

text \<open>
  C2, amended: for every batch of well-formed block records, \<^verbatim>\<open>POST /report\<close> answers
  with the number of distinct coordinate keys of the batch that were absent before the
  call. So a batch whose keys are all known answers 0, a batch of \<open>N\<close> records with
  pairwise distinct unknown keys answers \<open>N\<close>, and sending the same batch again answers 0
  and changes nothing.
\<close>

theorem report_blocks_counts_new_keys:
  assumes "\<forall>b \<in> set batch. well_formed b"
  shows "fst (receive_scan s (JList batch))
           = Response 200 (JObj [(''status'', JStr ''ok''),
                (''new_blocks'', JInt (int (length (new_keys (known_blocks s) batch))))])
       \<and> (set (batch_keys batch) \<subseteq> fst ` set (known_blocks s)
            \<longrightarrow> fst (receive_scan s (JList batch))
                  = Response 200 (JObj [(''status'', JStr ''ok''), (''new_blocks'', JInt 0)]))
       \<and> (distinct (batch_keys batch) \<and> set (batch_keys batch) \<inter> fst ` set (known_blocks s) = {}
            \<longrightarrow> fst (receive_scan s (JList batch))
                  = Response 200 (JObj [(''status'', JStr ''ok''),
                       (''new_blocks'', JInt (int (length batch)))]))
       \<and> receive_scan (snd (receive_scan s (JList batch))) (JList batch)
           = (Response 200 (JObj [(''status'', JStr ''ok''), (''new_blocks'', JInt 0)]),
              snd (receive_scan s (JList batch)))"
proof (intro conjI impI)
  show first: "fst (receive_scan s (JList batch))
           = Response 200 (JObj [(''status'', JStr ''ok''),
                (''new_blocks'', JInt (int (length (new_keys (known_blocks s) batch))))])"
    using receive_scan_well_formed [OF assms] by blast
  show "fst (receive_scan s (JList batch))
          = Response 200 (JObj [(''status'', JStr ''ok''), (''new_blocks'', JInt 0)])"
    if "set (batch_keys batch) \<subseteq> fst ` set (known_blocks s)"
    using receive_scan_all_known [OF assms that] by simp
  show "fst (receive_scan s (JList batch))
          = Response 200 (JObj [(''status'', JStr ''ok''),
               (''new_blocks'', JInt (int (length batch)))])"
    if d: "distinct (batch_keys batch)
           \<and> set (batch_keys batch) \<inter> fst ` set (known_blocks s) = {}"
  proof -
    have "set (batch_keys batch) - fst ` set (known_blocks s) = set (batch_keys batch)"
      using d by auto
    then have "length (new_keys (known_blocks s) batch) = length batch"
      using d by (simp add: new_keys_card distinct_card batch_keys_length [OF assms])
    with first show ?thesis by simp
  qed
  show "receive_scan (snd (receive_scan s (JList batch))) (JList batch)
           = (Response 200 (JObj [(''status'', JStr ''ok''), (''new_blocks'', JInt 0)]),
              snd (receive_scan s (JList batch)))"
  proof (rule receive_scan_all_known [OF assms])
    show "set (batch_keys batch) \<subseteq> fst ` set (known_blocks (snd (receive_scan s (JList batch))))"
      using receive_scan_well_formed [OF assms, of s] by auto
  qed
qed

theorem report_blocks_counts_new_keys_witness:
  "well_formed (JObj [(''x'', JInt 1), (''y'', JInt 2), (''z'', JInt 3), (''type'', JStr ''stone'')])
   \<and> well_formed (JObj [(''x'', JInt 1), (''y'', JInt 2), (''z'', JInt 4), (''type'', JStr ''dirt'')])
   \<and> distinct (batch_keys
         [JObj [(''x'', JInt 1), (''y'', JInt 2), (''z'', JInt 3), (''type'', JStr ''stone'')],
          JObj [(''x'', JInt 1), (''y'', JInt 2), (''z'', JInt 4), (''type'', JStr ''dirt'')]])
   \<and> set (batch_keys
         [JObj [(''x'', JInt 1), (''y'', JInt 2), (''z'', JInt 3), (''type'', JStr ''stone'')],
          JObj [(''x'', JInt 1), (''y'', JInt 2), (''z'', JInt 4), (''type'', JStr ''dirt'')]])
       \<inter> fst ` set (known_blocks (initial NoFile)) = {}
   \<and> fst (receive_scan (initial NoFile) (JList
         [JObj [(''x'', JInt 1), (''y'', JInt 2), (''z'', JInt 3), (''type'', JStr ''stone'')],
          JObj [(''x'', JInt 1), (''y'', JInt 2), (''z'', JInt 4), (''type'', JStr ''dirt'')]]))
     = Response 200 (JObj [(''status'', JStr ''ok''), (''new_blocks'', JInt 2)])
   \<and> fst (receive_scan
         (snd (receive_scan (initial NoFile) (JList
           [JObj [(''x'', JInt 1), (''y'', JInt 2), (''z'', JInt 3), (''type'', JStr ''stone'')],
            JObj [(''x'', JInt 1), (''y'', JInt 2), (''z'', JInt 4), (''type'', JStr ''dirt'')]])))
         (JList
           [JObj [(''x'', JInt 1), (''y'', JInt 2), (''z'', JInt 3), (''type'', JStr ''stone'')],
            JObj [(''x'', JInt 1), (''y'', JInt 2), (''z'', JInt 4), (''type'', JStr ''dirt'')]]))
     = Response 200 (JObj [(''status'', JStr ''ok''), (''new_blocks'', JInt 0)])"
proof -
  let ?batch = "[JObj [(''x'', JInt 1), (''y'', JInt 2), (''z'', JInt 3), (''type'', JStr ''stone'')],
                 JObj [(''x'', JInt 1), (''y'', JInt 2), (''z'', JInt 4), (''type'', JStr ''dirt'')]]"
  have h: "\<forall>b \<in> set ?batch. well_formed b"
    by (simp add: well_formed_def)
  have d: "distinct (batch_keys ?batch)
           \<and> set (batch_keys ?batch) \<inter> fst ` set (known_blocks (initial NoFile)) = {}"
    by (simp add: key_1_2_3 key_1_2_4 initial_def)
  note counts = report_blocks_counts_new_keys [OF h, of "initial NoFile"]
  have first: "fst (receive_scan (initial NoFile) (JList ?batch))
                 = Response 200 (JObj [(''status'', JStr ''ok''),
                      (''new_blocks'', JInt (int (length ?batch)))])"
    using counts d by blast
  have second: "fst (receive_scan (snd (receive_scan (initial NoFile) (JList ?batch)))
                       (JList ?batch))
                 = Response 200 (JObj [(''status'', JStr ''ok''), (''new_blocks'', JInt 0)])"
    using counts by simp
  from first have first': "fst (receive_scan (initial NoFile) (JList ?batch))
                 = Response 200 (JObj [(''status'', JStr ''ok''), (''new_blocks'', JInt 2)])"
    by simp
  from h have wf: "well_formed (JObj [(''x'', JInt 1), (''y'', JInt 2), (''z'', JInt 3),
                                     (''type'', JStr ''stone'')])
                 \<and> well_formed (JObj [(''x'', JInt 1), (''y'', JInt 2), (''z'', JInt 4),
                                       (''type'', JStr ''dirt'')])"
    by simp
  show ?thesis
    using wf d first' second by blast
qed

text \<open>
  C3 at a list whose second record has no \<^verbatim>\<open>y\<close> field, on the empty index: the loop
  inserts the first record and then raises \<^verbatim>\<open>KeyError\<close>. The answer is an internal
  server error, not the status-400 answer of the route, the index has gained the first
  block, and \<^verbatim>\<open>blocks.json\<close> has not been written.
\<close>

theorem malformed_record_partial_insert:
  "receive_scan (initial NoFile)
     (JList [JObj [(''x'', JInt 1), (''y'', JInt 2), (''z'', JInt 3), (''type'', JStr ''stone'')],
             JObj [(''x'', JInt 1)]])
     = (Unhandled (KeyError ''y''),
        (initial NoFile)\<lparr>known_blocks :=
           [(''1,2,3'', JObj [(''x'', JInt 1), (''y'', JInt 2), (''z'', JInt 3),
                              (''type'', JStr ''stone'')])]\<rparr>)
   \<and> blocks_file (snd (receive_scan (initial NoFile)
     (JList [JObj [(''x'', JInt 1), (''y'', JInt 2), (''z'', JInt 3), (''type'', JStr ''stone'')],
             JObj [(''x'', JInt 1)]]))) = NoFile"
  by (simp add: receive_scan_def key_1_2_3 key_missing_y initial_def)

subsection \<open>The invariant of the index\<close>

lemma block_index_ok_entries: "block_index_ok s \<longleftrightarrow> entries_ok (known_blocks s)"
  by (simp add: block_index_ok_def)

lemma entries_ok_snoc:
  "entries_ok kb \<Longrightarrow> key \<notin> fst ` set kb \<Longrightarrow> block_key block = Inr key
     \<Longrightarrow> entries_ok (kb @ [(key, block)])"
  by (simp add: entries_ok_def)

lemma entries_ok_update:
  "entries_ok kb \<Longrightarrow> block_key block = Inr key \<Longrightarrow> entries_ok (AList.update key block kb)"
proof (induction kb)
  case Nil
  then show ?case by (simp add: entries_ok_def)
next
  case (Cons entry kb)
  then have "entries_ok kb" by (simp add: entries_ok_def)
  with Cons have ih: "entries_ok (AList.update key block kb)" by simp
  show ?case
  proof (cases "fst entry = key")
    case True
    with Cons.prems show ?thesis by (simp add: entries_ok_def)
  next
    case False
    with Cons.prems ih show ?thesis
      by (auto simp: entries_ok_def dom_update)
  qed
qed

lemma scan_loop_entries_ok:
  "entries_ok kb \<Longrightarrow> scan_loop kb n blocks = (kb', r) \<Longrightarrow> entries_ok kb'"
proof (induction blocks arbitrary: kb n)
  case Nil
  then show ?case by simp
next
  case (Cons block rest)
  show ?case
  proof (cases "block_key block")
    case (Inl e)
    with Cons.prems show ?thesis by simp
  next
    case (Inr key)
    show ?thesis
    proof (cases "key \<in> fst ` set kb")
      case True
      with Cons.prems Inr have "scan_loop kb n rest = (kb', r)" by simp
      with Cons.prems(1) show ?thesis by (rule Cons.IH)
    next
      case False
      with Cons.prems Inr have "scan_loop (kb @ [(key, block)]) (n + 1) rest = (kb', r)" by simp
      moreover have "entries_ok (kb @ [(key, block)])"
        using Cons.prems(1) False Inr by (rule entries_ok_snoc)
      ultimately show ?thesis using Cons.IH by blast
    qed
  qed
qed

lemma load_loop_entries_ok: "entries_ok kb \<Longrightarrow> entries_ok (load_loop kb blocks)"
proof (induction blocks arbitrary: kb)
  case Nil
  then show ?case by simp
next
  case (Cons block rest)
  then show ?case
    by (cases "block_key block") (simp_all add: entries_ok_update)
qed

lemma startup_ok: "block_index_ok (startup d)"
proof -
  have empty: "entries_ok []" by (simp add: entries_ok_def)
  then have "entries_ok (load_loop [] blocks)" for blocks by (rule load_loop_entries_ok)
  with empty show ?thesis
    by (simp add: block_index_ok_entries startup_def load_blocks_def initial_def
             split: disk.splits json.splits)
qed

lemma receive_scan_known_blocks:
  "\<exists>n r. scan_loop (known_blocks s) n blocks = (known_blocks (snd (receive_scan s (JList blocks))), r)"
proof -
  obtain kb r where loop: "scan_loop (known_blocks s) 0 blocks = (kb, r)"
    by (cases "scan_loop (known_blocks s) 0 blocks")
  then have "known_blocks (snd (receive_scan s (JList blocks))) = kb"
    by (cases r) (simp_all add: receive_scan_def save_blocks_def)
  with loop show ?thesis by auto
qed

lemma step_known_blocks:
  "known_blocks (step s r) = known_blocks s
   \<or> (\<exists>blocks n res. scan_loop (known_blocks s) n blocks = (known_blocks (step s r), res))"
proof (cases r)
  case (ReceiveScan data)
  show ?thesis
  proof (cases data)
    case (JList blocks)
    with ReceiveScan show ?thesis using receive_scan_known_blocks [of s blocks] by auto
  qed (simp_all add: ReceiveScan receive_scan_def)
next
  case (QueueCommands data)
  then show ?thesis
    by (auto simp: queue_commands_def Let_def split: json.splits option.splits)
next
  case (GetAllCommands label)
  then show ?thesis by (auto simp: get_all_commands_def split: option.splits)
next
  case (GetNextCommand label)
  then show ?thesis by (auto simp: get_next_command_def split: option.splits list.splits)
next
  case (ReceiveStatus data)
  then show ?thesis
    by (auto simp: receive_status_def split: sum.splits bool.splits option.splits)
next
  case (GetStatus label)
  then show ?thesis by (auto simp: get_status_def split: option.splits)
next
  case (Register sid now data)
  then show ?thesis by (auto simp: handle_register_def Let_def split: json.splits)
next
  case (TurtleStatus data)
  then show ?thesis
    by (auto simp: handle_turtle_status_def split: sum.splits bool.splits option.splits)
next
  case (Command data)
  then show ?thesis
    by (auto simp: handle_command_def Let_def split: json.splits option.splits)
qed (simp_all add: index_def set_command_def get_all_status_def get_scan_def
       get_connected_clients_def handle_connect_def handle_disconnect_def)

lemma step_ok: "block_index_ok s \<Longrightarrow> block_index_ok (step s r)"
  using step_known_blocks [of s r]
  by (auto simp: block_index_ok_entries dest: scan_loop_entries_ok)

lemma step_keeps: "map_of (known_blocks s) key = Some block
    \<Longrightarrow> map_of (known_blocks (step s r)) key = Some block"
  using step_known_blocks [of s r]
  by (auto dest!: scan_loop_extends)

lemma run_ok: "block_index_ok s \<Longrightarrow> block_index_ok (run s rs)"
  by (induction rs arbitrary: s) (simp_all add: step_ok)

lemma run_keeps: "map_of (known_blocks s) key = Some block
    \<Longrightarrow> map_of (known_blocks (run s rs)) key = Some block"
  by (induction rs arbitrary: s) (simp_all add: step_keeps)

text \<open>
  C8: the index built at start-up from any content of \<^verbatim>\<open>blocks.json\<close> holds at most
  one block per coordinate key, each under its own key; every route and event keeps it so;
  a block stored under a key is still stored there, unchanged, after any sequence of
  requests; hence every state the server reaches satisfies the invariant.
\<close>

theorem block_index_invariant:
  "block_index_ok (startup d)
   \<and> (block_index_ok s \<longrightarrow> block_index_ok (step s r))
   \<and> (map_of (known_blocks s) key = Some block
        \<longrightarrow> map_of (known_blocks (run s rs)) key = Some block)
   \<and> block_index_ok (run (startup d) rs)"
  by (simp add: startup_ok step_ok run_keeps run_ok)

theorem block_index_invariant_witness:
  "block_index_ok (startup (Parsed (JList
       [JObj [(''x'', JInt 1), (''y'', JInt 2), (''z'', JInt 3), (''type'', JStr ''stone'')]])))
   \<and> map_of (known_blocks (startup (Parsed (JList
       [JObj [(''x'', JInt 1), (''y'', JInt 2), (''z'', JInt 3), (''type'', JStr ''stone'')]]))))
       ''1,2,3''
     = Some (JObj [(''x'', JInt 1), (''y'', JInt 2), (''z'', JInt 3), (''type'', JStr ''stone'')])
   \<and> block_index_ok (step (startup (Parsed (JList
       [JObj [(''x'', JInt 1), (''y'', JInt 2), (''z'', JInt 3), (''type'', JStr ''stone'')]])))
       (ReceiveScan (JList
         [JObj [(''x'', JInt 1), (''y'', JInt 2), (''z'', JInt 3), (''type'', JStr ''dirt'')]])))
   \<and> map_of (known_blocks (run (startup (Parsed (JList
       [JObj [(''x'', JInt 1), (''y'', JInt 2), (''z'', JInt 3), (''type'', JStr ''stone'')]])))
       [ReceiveScan (JList
         [JObj [(''x'', JInt 1), (''y'', JInt 2), (''z'', JInt 3), (''type'', JStr ''dirt'')]]),
        GetScan]))
       ''1,2,3''
     = Some (JObj [(''x'', JInt 1), (''y'', JInt 2), (''z'', JInt 3), (''type'', JStr ''stone'')])"
proof -
  let ?stone = "JObj [(''x'', JInt 1), (''y'', JInt 2), (''z'', JInt 3), (''type'', JStr ''stone'')]"
  let ?dirt = "JObj [(''x'', JInt 1), (''y'', JInt 2), (''z'', JInt 3), (''type'', JStr ''dirt'')]"
  let ?s = "startup (Parsed (JList [?stone]))"
  have h: "map_of (known_blocks ?s) ''1,2,3'' = Some ?stone"
    by (simp add: startup_def load_blocks_def initial_def key_1_2_3)
  show ?thesis
    using h block_index_invariant [of "Parsed (JList [?stone])" ?s "ReceiveScan (JList [?dirt])"
            "''1,2,3''" ?stone "[ReceiveScan (JList [?dirt]), GetScan]"]
    by blast
qed

end
